theory Spec2Isabelle
  imports
    Main
    "HOL-Library.Multiset"
    "HOL-Library.Char_ord"
    "HOL-Library.List_Lexorder"
begin

section \<open>The parsed schema\<close>

text \<open>
  The plugin of \<^verbatim>\<open>src/plugin/main.go\<close> (package \<^verbatim>\<open>todo\<close>) reads a schema parsed by
  gqlparser. \<^verbatim>\<open>ast.DefinitionKind\<close> is a Go string type with six declared constants; any
  other string is still a value of the type, which \<open>ast_other\<close> stands for.
\<close>

datatype DefinitionKind =
    ast_Scalar | ast_Object | ast_Interface | ast_Union | ast_Enum | ast_InputObject
  | ast_other string

text \<open>
  What can stop \<^verbatim>\<open>MutateConfig\<close>: the error value returned by the \<^verbatim>\<open>Binder\<close>, the explicit
  \<^verbatim>\<open>panic(fmt.Errorf("unknown ast type %s", fieldDef.Kind))\<close>, and the run-time panics of Go
  (a nil pointer dereference, an index out of range).
\<close>

datatype error =
    BindError string
  | PanicUnknownAstType DefinitionKind
  | PanicNilDereference
  | PanicIndexOutOfRange

text \<open>\<^verbatim>\<open>ast.Type\<close>: \<^verbatim>\<open>struct { NamedType string; Elem *Type; NonNull bool }\<close>.\<close>

datatype AstType = AstType (NamedType: string) (Elem: "AstType option") (NonNull: bool)

text \<open>
  \<^verbatim>\<open>func (t *Type) Name() string\<close> returns \<^verbatim>\<open>t.NamedType\<close> when it is not empty and
  \<^verbatim>\<open>t.Elem.Name()\<close> otherwise, which dereferences nil when there is no element type.
\<close>

fun AstType_Name :: "AstType \<Rightarrow> error + string" where
  "AstType_Name (AstType n e nn) =
     (if n \<noteq> [] then Inr n
      else case e of None \<Rightarrow> Inl PanicNilDereference | Some t \<Rightarrow> AstType_Name t)"

record Value =
  Raw :: string

record Argument =
  Name :: string
  Value :: Value

record Directive =
  Name :: string
  Arguments :: "Argument list"

record FieldDefinition =
  Description :: string
  Name :: string
  Type :: AstType
  Directives :: "Directive list"

record EnumValueDefinition =
  Description :: string
  Name :: string

record Definition =
  Kind :: DefinitionKind
  Description :: string
  Name :: string
  Directives :: "Directive list"
  Fields :: "FieldDefinition list"
  EnumValues :: "EnumValueDefinition list"
  BuiltIn :: bool

text \<open>
  \<^verbatim>\<open>DirectiveList.ForName\<close> and \<^verbatim>\<open>ArgumentList.ForName\<close> return the first entry of that name,
  or nil.
\<close>

definition DirectiveList_ForName :: "Directive list \<Rightarrow> string \<Rightarrow> Directive option" where
  "DirectiveList_ForName l name = find (\<lambda>it. Directive.Name it = name) l"

definition ArgumentList_ForName :: "Argument list \<Rightarrow> string \<Rightarrow> Argument option" where
  "ArgumentList_ForName l name = find (\<lambda>it. Argument.Name it = name) l"

text \<open>
  The schema holds its definitions by pointer: \<^verbatim>\<open>Types map[string]*Definition\<close>, the three
  roots \<^verbatim>\<open>*Definition\<close> (nil when the schema has none), and
  \<^verbatim>\<open>Implements map[string][]*Definition\<close>. A pointer is an address; the store maps each
  address to the definition it holds. The code compares a type with the roots by pointer
  (line 124), so the addresses are kept.

  Go ranges over a map in an order that changes from run to run. The list \<open>Types\<close> holds the
  entries of the map in the order of one run; a property of the program is one that holds
  for every order.
\<close>

type_synonym ptr = nat

record Schema =
  Query :: "ptr option"
  Mutation :: "ptr option"
  Subscription :: "ptr option"
  Types :: "(string \<times> ptr) list"
  Implements :: "string \<Rightarrow> ptr list"

text \<open>\<^verbatim>\<open>cfg.Schema.Types[name]\<close>: the definition stored under the name, nil when there is none.\<close>

definition Schema_Types_lookup :: "(ptr \<Rightarrow> Definition) \<Rightarrow> Schema \<Rightarrow> string \<Rightarrow> Definition option" where
  "Schema_Types_lookup h s name = map_option h (map_of (Types s) name)"

text \<open>\<^verbatim>\<open>func (s *Schema) GetImplements(def *Definition) []*Definition\<close>.\<close>

definition GetImplements :: "Schema \<Rightarrow> Definition \<Rightarrow> ptr list" where
  "GetImplements s def = Implements s (Definition.Name def)"

section \<open>Go types\<close>

text \<open>
  The values of \<^verbatim>\<open>go/types\<close> the plugin builds, named after their constructors. The fields
  of a struct and the methods of an interface are left out; no code here reads them.
  \<open>NewNamed pkg name underlying\<close> is
  \<^verbatim>\<open>types.NewNamed(types.NewTypeName(0, pkg, name, nil), underlying, nil)\<close>.
\<close>

datatype GoType =
    NewNamed string string "GoType option"
  | NewStruct
  | NewInterfaceType
  | NewPointer GoType
  | NewSlice GoType
  | Basic string

text \<open>\<^verbatim>\<open>Underlying()\<close> of a named type is the type it was declared with, of any other type itself.\<close>

fun Underlying :: "GoType \<Rightarrow> GoType option" where
  "Underlying (NewNamed pkg name u) = u"
| "Underlying t = Some t"

text \<open>Lines 351-354.\<close>

definition isStruct :: "GoType \<Rightarrow> bool" where
  "isStruct t = (Underlying t = Some NewStruct)"

section \<open>Configuration\<close>

record TypeMapField =
  Resolver :: bool
  FieldName :: string

record TypeMapEntry =
  Model :: "string list"
  Fields :: "string \<rightharpoonup> TypeMapField"

type_synonym TypeMap = "string \<rightharpoonup> TypeMapEntry"

text \<open>Reading a Go map at a missing key gives the zero value of the element type.\<close>

definition TypeMap_get :: "TypeMap \<Rightarrow> string \<Rightarrow> TypeMapEntry" where
  "TypeMap_get tm name =
     (case tm name of None \<Rightarrow> \<lparr>Model = [], Fields = Map.empty\<rparr> | Some e \<Rightarrow> e)"

definition Fields_get :: "TypeMapEntry \<Rightarrow> string \<Rightarrow> TypeMapField" where
  "Fields_get e name =
     (case TypeMapEntry.Fields e name of
        None \<Rightarrow> \<lparr>Resolver = False, FieldName = []\<rparr>
      | Some f \<Rightarrow> f)"

text \<open>\<^verbatim>\<open>func (tm TypeMap) UserDefined(name string) bool\<close>.\<close>

definition UserDefined :: "TypeMap \<Rightarrow> string \<Rightarrow> bool" where
  "UserDefined tm name =
     (case tm name of None \<Rightarrow> False | Some m \<Rightarrow> 0 < length (TypeMapEntry.Model m))"

text \<open>\<^verbatim>\<open>func (tm TypeMap) Add(name string, goType string)\<close> appends to the entry's models.\<close>

definition TypeMap_Add :: "TypeMap \<Rightarrow> string \<Rightarrow> string \<Rightarrow> TypeMap" where
  "TypeMap_Add tm name goType =
     (let modelCfg = TypeMap_get tm name
      in tm(name \<mapsto>
           modelCfg\<lparr>TypeMapEntry.Model := TypeMapEntry.Model modelCfg @ [goType]\<rparr>))"

text \<open>
  \<^verbatim>\<open>cfg.Model\<close>: the package name and file name, and what its methods \<^verbatim>\<open>ImportPath()\<close> and
  \<^verbatim>\<open>Pkg()\<close> return.
\<close>

record PackageConfig =
  Filename :: string
  Package :: string
  ImportPath :: string
  Pkg :: string

record Config =
  Schema :: Schema
  Models :: TypeMap
  Model :: PackageConfig

section \<open>The intermediate model\<close>

text \<open>Lines 47-84.\<close>

record Interface =
  Description :: string
  Name :: string

record Field =
  Description :: string
  Name :: string
  Type :: GoType
  Tag :: string
  Gorm :: string

record Object =
  Description :: string
  Name :: string
  Fields :: "Field list"
  Implements :: "string list"

record EnumValue =
  Description :: string
  Name :: string

record Enum =
  Description :: string
  Name :: string
  Values :: "EnumValue list"

record ModelBuild =
  PackageName :: string
  Interfaces :: "Interface list"
  Models :: "Object list"
  Enums :: "Enum list"
  Scalars :: "string list"

section \<open>External collaborators\<close>

text \<open>
  The \<^verbatim>\<open>Binder\<close>, \<^verbatim>\<open>templates.ToGo\<close> and \<^verbatim>\<open>templates.Render\<close> belong to the host; they are
  parameters of the model. \<open>FindTypeFromName\<close> returns the error text or the type;
  \<open>Render\<close> receives the options of lines 255-260 (the template is fixed) and returns the
  error text, or nothing.
\<close>

record Options =
  PackageName :: string
  Filename :: string
  Data :: ModelBuild

record Externals =
  FindTypeFromName :: "string \<Rightarrow> string + GoType"
  CopyModifiersFromAst :: "AstType \<Rightarrow> GoType \<Rightarrow> GoType"
  ToGo :: "string \<Rightarrow> string"
  Render :: "Options \<Rightarrow> string option"

section \<open>The field composer (lines 135-213)\<close>

text \<open>Lines 139-182: the user's model when there is one, else a type synthesised by kind.\<close>

definition fieldBaseType ::
  "Externals \<Rightarrow> Config \<Rightarrow> Definition option \<Rightarrow> string \<Rightarrow> error + GoType" where
  "fieldBaseType ext cfg fieldDef tname =
     (if UserDefined (Config.Models cfg) tname then
        (case TypeMapEntry.Model (TypeMap_get (Config.Models cfg) tname) of
           [] \<Rightarrow> Inl PanicIndexOutOfRange
         | m # _ \<Rightarrow>
            (case FindTypeFromName ext m of
               Inl err \<Rightarrow> Inl (BindError err)
             | Inr typ \<Rightarrow> Inr typ))
      else
        (case fieldDef of
           None \<Rightarrow> Inl PanicNilDereference
         | Some d \<Rightarrow>
            (case Kind d of
               ast_Scalar \<Rightarrow> Inr (NewNamed (Pkg (Config.Model cfg)) ''string'' None)
             | ast_Interface \<Rightarrow>
                 Inr (NewNamed (Pkg (Config.Model cfg)) (ToGo ext tname) (Some NewInterfaceType))
             | ast_Union \<Rightarrow>
                 Inr (NewNamed (Pkg (Config.Model cfg)) (ToGo ext tname) (Some NewInterfaceType))
             | ast_Enum \<Rightarrow> Inr (NewNamed (Pkg (Config.Model cfg)) (ToGo ext tname) None)
             | ast_Object \<Rightarrow>
                 Inr (NewNamed (Pkg (Config.Model cfg)) (ToGo ext tname) (Some NewStruct))
             | ast_InputObject \<Rightarrow>
                 Inr (NewNamed (Pkg (Config.Model cfg)) (ToGo ext tname) (Some NewStruct))
             | ast_other k \<Rightarrow> Inl (PanicUnknownAstType (ast_other k)))))"

text \<open>Lines 184-187: the configured name when it is not empty, else the declared one.\<close>

definition fieldName :: "Config \<Rightarrow> Definition \<Rightarrow> FieldDefinition \<Rightarrow> string" where
  "fieldName cfg schemaType field =
     (let nameOveride =
        FieldName (Fields_get (TypeMap_get (Config.Models cfg) (Definition.Name schemaType))
                              (FieldDefinition.Name field))
      in if nameOveride \<noteq> [] then nameOveride else FieldDefinition.Name field)"

text \<open>
  Lines 191-193. \<^verbatim>\<open>&&\<close> evaluates \<^verbatim>\<open>fieldDef.Kind\<close> only when \<^verbatim>\<open>isStruct(typ)\<close> holds; there
  a nil \<^verbatim>\<open>fieldDef\<close> panics.
\<close>

definition forcePointer :: "GoType \<Rightarrow> Definition option \<Rightarrow> error + GoType" where
  "forcePointer typ fieldDef =
     (if isStruct typ then
        (case fieldDef of
           None \<Rightarrow> Inl PanicNilDereference
         | Some d \<Rightarrow>
            Inr (if Kind d = ast_Object \<or> Kind d = ast_InputObject then NewPointer typ else typ))
      else Inr typ)"

text \<open>Lines 195-204.\<close>

definition gormColumn :: "string \<Rightarrow> string" where
  "gormColumn s = ''gorm:\"column:'' @ s @ ''\"''"

definition gormType :: "FieldDefinition \<Rightarrow> string" where
  "gormType field =
     (case DirectiveList_ForName (FieldDefinition.Directives field) ''isDatabaseField'' of
        None \<Rightarrow> []
      | Some directive \<Rightarrow>
         (case ArgumentList_ForName (Arguments directive) ''fieldName'' of
            Some arg \<Rightarrow> gormColumn (Raw (Argument.Value arg))
          | None \<Rightarrow> gormColumn (FieldDefinition.Name field)))"

text \<open>Line 210.\<close>

definition jsonTag :: "string \<Rightarrow> string" where
  "jsonTag s = ''json:\"'' @ s @ ''\"''"

text \<open>The body of the loop over the fields, up to the value appended at line 206.\<close>

definition composeField ::
  "Externals \<Rightarrow> (ptr \<Rightarrow> Definition) \<Rightarrow> Config \<Rightarrow> Definition \<Rightarrow> FieldDefinition
     \<Rightarrow> error + Field" where
  "composeField ext h cfg schemaType field =
     (case AstType_Name (FieldDefinition.Type field) of
        Inl e \<Rightarrow> Inl e
      | Inr tname \<Rightarrow>
         (let fieldDef = Schema_Types_lookup h (Config.Schema cfg) tname in
          case fieldBaseType ext cfg fieldDef tname of
            Inl e \<Rightarrow> Inl e
          | Inr typ0 \<Rightarrow>
             (let name = fieldName cfg schemaType field;
                  typ1 = CopyModifiersFromAst ext (FieldDefinition.Type field) typ0 in
              case forcePointer typ1 fieldDef of
                Inl e \<Rightarrow> Inl e
              | Inr typ \<Rightarrow>
                 Inr \<lparr>Field.Description = FieldDefinition.Description field,
                      Name = name,
                      Type = typ,
                      Tag = jsonTag (FieldDefinition.Name field),
                      Gorm = gormType field\<rparr>)))"

text \<open>The loop of line 135: each field is appended to \<^verbatim>\<open>it.Fields\<close>.\<close>

fun fields_loop ::
  "Externals \<Rightarrow> (ptr \<Rightarrow> Definition) \<Rightarrow> Config \<Rightarrow> Definition \<Rightarrow> FieldDefinition list
     \<Rightarrow> Object \<Rightarrow> error + Object" where
  "fields_loop ext h cfg schemaType [] it = Inr it"
| "fields_loop ext h cfg schemaType (field # rest) it =
     (case composeField ext h cfg schemaType field of
        Inl e \<Rightarrow> Inl e
      | Inr f \<Rightarrow>
         fields_loop ext h cfg schemaType rest (it\<lparr>Object.Fields := Object.Fields it @ [f]\<rparr>))"

section \<open>The schema classifier (lines 109-233)\<close>

definition isRoot :: "Schema \<Rightarrow> ptr \<Rightarrow> bool" where
  "isRoot s p \<longleftrightarrow> Some p = Query s \<or> Some p = Mutation s \<or> Some p = Subscription s"

text \<open>One iteration of the loop of line 109, for the type at address \<open>p\<close>.\<close>

definition classify ::
  "Externals \<Rightarrow> (ptr \<Rightarrow> Definition) \<Rightarrow> Config \<Rightarrow> ptr \<Rightarrow> ModelBuild \<Rightarrow> error + ModelBuild" where
  "classify ext h cfg p b =
     (let schemaType = h p in
      if BuiltIn schemaType then Inr b
      else if Kind schemaType = ast_Interface \<or> Kind schemaType = ast_Union then
        Inr (b\<lparr>Interfaces := Interfaces b @
                 [\<lparr>Interface.Description = Definition.Description schemaType,
                   Name = Definition.Name schemaType\<rparr>]\<rparr>)
      else if Kind schemaType = ast_Object \<or> Kind schemaType = ast_InputObject then
        (if isRoot (Config.Schema cfg) p then Inr b
         else
           (let it = \<lparr>Object.Description = Definition.Description schemaType,
                      Name = Definition.Name schemaType,
                      Fields = [],
                      Implements =
                        map (\<lambda>implementor. Definition.Name (h implementor))
                            (GetImplements (Config.Schema cfg) schemaType)\<rparr>
            in case fields_loop ext h cfg schemaType (Definition.Fields schemaType) it of
                 Inl e \<Rightarrow> Inl e
               | Inr it' \<Rightarrow> Inr (b\<lparr>Models := ModelBuild.Models b @ [it']\<rparr>)))
      else if Kind schemaType = ast_Enum then
        Inr (b\<lparr>Enums := Enums b @
                 [\<lparr>Enum.Description = Definition.Description schemaType,
                   Name = Definition.Name schemaType,
                   Values =
                     map (\<lambda>v. \<lparr>EnumValue.Description = EnumValueDefinition.Description v,
                               Name = EnumValueDefinition.Name v\<rparr>)
                         (EnumValues schemaType)\<rparr>]\<rparr>)
      else if Kind schemaType = ast_Scalar then
        Inr (b\<lparr>Scalars := Scalars b @ [Definition.Name schemaType]\<rparr>)
      else Inr b)"

fun types_loop ::
  "Externals \<Rightarrow> (ptr \<Rightarrow> Definition) \<Rightarrow> Config \<Rightarrow> (string \<times> ptr) list \<Rightarrow> ModelBuild
     \<Rightarrow> error + ModelBuild" where
  "types_loop ext h cfg [] b = Inr b"
| "types_loop ext h cfg ((k, p) # rest) b =
     (case classify ext h cfg p b of
        Inl e \<Rightarrow> Inl e
      | Inr b' \<Rightarrow> types_loop ext h cfg rest b')"

section \<open>Sorting, registration and rendering (lines 234-348)\<close>

text \<open>
  What the host can observe of a run: the calls of \<^verbatim>\<open>cfg.Models.Add\<close> and of
  \<^verbatim>\<open>templates.Render\<close>, in the order they are made.
\<close>

datatype event = Add string string | RenderCall Options

text \<open>
  A run that reaches line 234: the build, \<^verbatim>\<open>cfg.Models\<close> as the run leaves it, the calls
  it made, and the error it returns (nothing for nil).
\<close>

record Run =
  build :: ModelBuild
  models :: TypeMap
  trace :: "event list"
  returned :: "string option"

text \<open>The loops of lines 238-249: one call of \<^verbatim>\<open>Add\<close> for each entry, in order.\<close>

fun add_all :: "(string \<times> string) list \<Rightarrow> TypeMap \<times> event list \<Rightarrow> TypeMap \<times> event list" where
  "add_all [] st = st"
| "add_all ((name, goType) # rest) (tm, tr) =
     add_all rest (TypeMap_Add tm name goType, tr @ [Add name goType])"

definition generatedPath :: "Externals \<Rightarrow> Config \<Rightarrow> string \<Rightarrow> string" where
  "generatedPath ext cfg name = ImportPath (Config.Model cfg) @ ''.'' @ ToGo ext name"

definition graphqlString :: string where
  "graphqlString = ''github.com/99designs/gqlgen/graphql.String''"

text \<open>
  \<^verbatim>\<open>sort.Slice\<close> with \<^verbatim>\<open>less\<close> comparing the names by \<^verbatim>\<open><\<close> on Go strings (bytewise
  lexicographic, the order of \<open>char list\<close> here) is modelled by \<open>sort_key\<close>. Go does not
  promise the order of entries of equal name.
\<close>

definition MutateConfig ::
  "Externals \<Rightarrow> (ptr \<Rightarrow> Definition) \<Rightarrow> Config \<Rightarrow> error + Run" where
  "MutateConfig ext h cfg =
     (case types_loop ext h cfg (Types (Config.Schema cfg))
             \<lparr>ModelBuild.PackageName = Package (Config.Model cfg),
              Interfaces = [], Models = [], Enums = [], Scalars = []\<rparr> of
        Inl e \<Rightarrow> Inl e
      | Inr b0 \<Rightarrow>
         (let b = b0\<lparr>Enums := sort_key Enum.Name (Enums b0),
                     Models := sort_key Object.Name (ModelBuild.Models b0),
                     Interfaces := sort_key Interface.Name (Interfaces b0)\<rparr>;
              st0 = (Config.Models cfg, []);
              st1 = add_all (map (\<lambda>it. (Enum.Name it, generatedPath ext cfg (Enum.Name it)))
                               (Enums b)) st0;
              st2 = add_all (map (\<lambda>it. (Object.Name it, generatedPath ext cfg (Object.Name it)))
                               (ModelBuild.Models b)) st1;
              st3 = add_all (map (\<lambda>it. (Interface.Name it,
                                         generatedPath ext cfg (Interface.Name it)))
                               (Interfaces b)) st2;
              st4 = add_all (map (\<lambda>it. (it, graphqlString)) (Scalars b)) st3
          in if length (ModelBuild.Models b) = 0 \<and> length (Enums b) = 0
                \<and> length (Interfaces b) = 0 \<and> length (Scalars b) = 0
             then Inr \<lparr>build = b, models = fst st4, trace = snd st4, returned = None\<rparr>
             else
               (let opts = \<lparr>Options.PackageName = Package (Config.Model cfg),
                            Filename = PackageConfig.Filename (Config.Model cfg),
                            Data = b\<rparr>
                in Inr \<lparr>build = b, models = fst st4,
                        trace = snd st4 @ [RenderCall opts],
                        returned = Render ext opts\<rparr>)))"

section \<open>Vocabulary of the statements\<close>

text \<open>The build the run starts from (lines 105-107).\<close>

definition initialBuild :: "Config \<Rightarrow> ModelBuild" where
  "initialBuild cfg =
     \<lparr>ModelBuild.PackageName = Package (Config.Model cfg),
      Interfaces = [], Models = [], Enums = [], Scalars = []\<rparr>"

definition emptyBuild :: ModelBuild where
  "emptyBuild =
     \<lparr>ModelBuild.PackageName = [], Interfaces = [], Models = [], Enums = [], Scalars = []\<rparr>"

text \<open>Appending the four collections of \<open>d\<close> to those of \<open>b\<close>.\<close>

definition appendBuild :: "ModelBuild \<Rightarrow> ModelBuild \<Rightarrow> ModelBuild" where
  "appendBuild b d =
     b\<lparr>Interfaces := Interfaces b @ Interfaces d,
       Models := ModelBuild.Models b @ ModelBuild.Models d,
       Enums := Enums b @ Enums d,
       Scalars := Scalars b @ Scalars d\<rparr>"

text \<open>
  What the entry \<open>e\<close> of \<^verbatim>\<open>Types\<close> adds to a build, and whether its iteration completes
  (it does not when a field of the type stops the run).
\<close>

definition contribution ::
  "Externals \<Rightarrow> (ptr \<Rightarrow> Definition) \<Rightarrow> Config \<Rightarrow> string \<times> ptr \<Rightarrow> ModelBuild" where
  "contribution ext h cfg e =
     (case classify ext h cfg (snd e) emptyBuild of Inl err \<Rightarrow> emptyBuild | Inr d \<Rightarrow> d)"

definition classifies ::
  "Externals \<Rightarrow> (ptr \<Rightarrow> Definition) \<Rightarrow> Config \<Rightarrow> string \<times> ptr \<Rightarrow> bool" where
  "classifies ext h cfg e =
     (case classify ext h cfg (snd e) emptyBuild of Inl err \<Rightarrow> False | Inr d \<Rightarrow> True)"

text \<open>
  \<open>modelFrom ext h cfg p it\<close>: the object \<open>it\<close> is the one generated for the type at
  address \<open>p\<close>, a type that is not built in, is an object or input object and is no root;
  the fields of \<open>it\<close> are the composed fields of the type, position by position.
\<close>

definition modelFrom ::
  "Externals \<Rightarrow> (ptr \<Rightarrow> Definition) \<Rightarrow> Config \<Rightarrow> ptr \<Rightarrow> Object \<Rightarrow> bool" where
  "modelFrom ext h cfg p it \<longleftrightarrow>
     \<not> BuiltIn (h p) \<and> (Kind (h p) = ast_Object \<or> Kind (h p) = ast_InputObject) \<and>
     \<not> isRoot (Config.Schema cfg) p \<and>
     Object.Name it = Definition.Name (h p) \<and>
     Object.Description it = Definition.Description (h p) \<and>
     list_all2 (\<lambda>f fld. composeField ext h cfg (h p) f = Inr fld)
       (Definition.Fields (h p)) (Object.Fields it)"

text \<open>The generated names of a build, with multiplicity.\<close>

definition names :: "ModelBuild \<Rightarrow> string multiset" where
  "names b =
     mset (map Enum.Name (Enums b)) + mset (map Object.Name (ModelBuild.Models b)) +
     mset (map Interface.Name (Interfaces b)) + mset (Scalars b)"

text \<open>Lines 234-236.\<close>

definition sortBuild :: "ModelBuild \<Rightarrow> ModelBuild" where
  "sortBuild b0 =
     b0\<lparr>Enums := sort_key Enum.Name (Enums b0),
        Models := sort_key Object.Name (ModelBuild.Models b0),
        Interfaces := sort_key Interface.Name (Interfaces b0)\<rparr>"

text \<open>
  The pairs handed to \<^verbatim>\<open>cfg.Models.Add\<close> by the loops of lines 238-249, in the order of the
  calls.
\<close>

definition registrations :: "Externals \<Rightarrow> Config \<Rightarrow> ModelBuild \<Rightarrow> (string \<times> string) list" where
  "registrations ext cfg b =
     map (\<lambda>it. (Enum.Name it, generatedPath ext cfg (Enum.Name it))) (Enums b) @
     map (\<lambda>it. (Object.Name it, generatedPath ext cfg (Object.Name it))) (ModelBuild.Models b) @
     map (\<lambda>it. (Interface.Name it, generatedPath ext cfg (Interface.Name it))) (Interfaces b) @
     map (\<lambda>it. (it, graphqlString)) (Scalars b)"

text \<open>The condition of line 251 and the options of lines 255-260.\<close>

definition nothingToGenerate :: "ModelBuild \<Rightarrow> bool" where
  "nothingToGenerate b \<longleftrightarrow>
     ModelBuild.Models b = [] \<and> Enums b = [] \<and> Interfaces b = [] \<and> Scalars b = []"

definition renderOptions :: "Config \<Rightarrow> ModelBuild \<Rightarrow> Options" where
  "renderOptions cfg b =
     \<lparr>Options.PackageName = Package (Config.Model cfg),
      Filename = PackageConfig.Filename (Config.Model cfg),
      Data = b\<rparr>"

fun isRenderCall :: "event \<Rightarrow> bool" where
  "isRenderCall (RenderCall opts) = True"
| "isRenderCall (Add name goType) = False"

text \<open>
  A schema as the parser builds it: \<^verbatim>\<open>Types\<close> is a map (no key twice) and holds every
  definition under the definition's own name.
\<close>

definition schema_named :: "(ptr \<Rightarrow> Definition) \<Rightarrow> Schema \<Rightarrow> bool" where
  "schema_named h s \<longleftrightarrow>
     distinct (map fst (Types s)) \<and> (\<forall>(k, p)\<in>set (Types s). Definition.Name (h p) = k)"

text \<open>The same configuration in a run that ranges over \<^verbatim>\<open>Types\<close> in the order \<open>ts\<close>.\<close>

definition reorder :: "Config \<Rightarrow> (string \<times> ptr) list \<Rightarrow> Config" where
  "reorder cfg ts = cfg\<lparr>Schema := (Config.Schema cfg)\<lparr>Types := ts\<rparr>\<rparr>"

section \<open>Example schemas\<close>

text \<open>
  An instance of the \<^verbatim>\<open>Binder\<close> for the examples: \<open>copyModifiers\<close> wraps a list type in a slice
  (with a pointer to a struct element) and a nullable named type that is no interface in a
  pointer, as gqlgen's \<^verbatim>\<open>CopyModifiersFromAst\<close> does. The names of the examples are already
  in Go form, so \<open>ToGo\<close> leaves them as they are.
\<close>

fun copyModifiers :: "AstType \<Rightarrow> GoType \<Rightarrow> GoType" where
  "copyModifiers (AstType n None nn) base =
     (if Underlying base \<noteq> Some NewInterfaceType \<and> \<not> nn then NewPointer base else base)"
| "copyModifiers (AstType n (Some e) nn) base =
     (let child = copyModifiers e base
      in NewSlice (if isStruct child then NewPointer child else child))"

definition ex_ext :: Externals where
  "ex_ext =
     \<lparr>FindTypeFromName =
        (\<lambda>s. if s = ''github.com/99designs/gqlgen/graphql.ID'' then Inr (Basic ''string'')
             else if s = ''github.com/99designs/gqlgen/graphql.String''
             then Inr (Basic ''string'')
             else Inl ''unable to find type''),
      CopyModifiersFromAst = copyModifiers,
      ToGo = (\<lambda>s. s),
      Render = (\<lambda>opts. None)\<rparr>"

text \<open>
  \<^verbatim>\<open>type Query { user: User }\<close>, the query root;
  \<^verbatim>\<open>type User implements Node { id: ID!  name: String @isDatabaseField
  nick: String @isDatabaseField(fieldName: "nick_name")  account: Account! }\<close>;
  \<^verbatim>\<open>type Account @isDatabaseField { owner: Node }\<close>; \<^verbatim>\<open>interface Node\<close>;
  \<^verbatim>\<open>enum Status { DONE ACTIVE }\<close>; \<^verbatim>\<open>scalar Time\<close>; the built-in scalars \<^verbatim>\<open>ID\<close> and
  \<^verbatim>\<open>String\<close>. The configuration binds \<^verbatim>\<open>ID\<close> and \<^verbatim>\<open>String\<close> to user models and renames the
  field \<^verbatim>\<open>nick\<close> of \<^verbatim>\<open>User\<close> to \<^verbatim>\<open>Nickname\<close>.
\<close>

definition isDatabaseField :: "Argument list \<Rightarrow> Directive" where
  "isDatabaseField args = \<lparr>Directive.Name = ''isDatabaseField'', Arguments = args\<rparr>"

definition ex_field :: "string \<Rightarrow> string \<Rightarrow> bool \<Rightarrow> Directive list \<Rightarrow> FieldDefinition" where
  "ex_field n t nonNull ds =
     \<lparr>FieldDefinition.Description = [], Name = n, Type = AstType t None nonNull,
      Directives = ds\<rparr>"

definition ex_id :: FieldDefinition where
  "ex_id = ex_field ''id'' ''ID'' True []"

definition ex_name :: FieldDefinition where
  "ex_name = ex_field ''name'' ''String'' False [isDatabaseField []]"

definition ex_nick :: FieldDefinition where
  "ex_nick =
     ex_field ''nick'' ''String'' False
       [isDatabaseField [\<lparr>Argument.Name = ''fieldName'', Value = \<lparr>Raw = ''nick_name''\<rparr>\<rparr>]]"

definition ex_account :: FieldDefinition where
  "ex_account = ex_field ''account'' ''Account'' True []"

definition ex_owner :: FieldDefinition where
  "ex_owner = ex_field ''owner'' ''Node'' False []"

definition ex_Query :: Definition where
  "ex_Query =
     \<lparr>Kind = ast_Object, Description = [], Name = ''Query'', Directives = [],
      Fields = [ex_field ''user'' ''User'' False []], EnumValues = [], BuiltIn = False\<rparr>"

definition ex_User :: Definition where
  "ex_User =
     \<lparr>Kind = ast_Object, Description = ''A user'', Name = ''User'', Directives = [],
      Fields = [ex_id, ex_name, ex_nick, ex_account], EnumValues = [], BuiltIn = False\<rparr>"

definition ex_Account :: Definition where
  "ex_Account =
     \<lparr>Kind = ast_Object, Description = [], Name = ''Account'',
      Directives = [isDatabaseField []],
      Fields = [ex_owner], EnumValues = [], BuiltIn = False\<rparr>"

definition ex_Node :: Definition where
  "ex_Node =
     \<lparr>Kind = ast_Interface, Description = [], Name = ''Node'', Directives = [],
      Fields = [], EnumValues = [], BuiltIn = False\<rparr>"

definition ex_Status :: Definition where
  "ex_Status =
     \<lparr>Kind = ast_Enum, Description = [], Name = ''Status'', Directives = [],
      Fields = [],
      EnumValues = [\<lparr>EnumValueDefinition.Description = [], Name = ''DONE''\<rparr>,
                    \<lparr>EnumValueDefinition.Description = [], Name = ''ACTIVE''\<rparr>],
      BuiltIn = False\<rparr>"

definition ex_scalar :: "string \<Rightarrow> bool \<Rightarrow> Definition" where
  "ex_scalar n builtIn =
     \<lparr>Kind = ast_Scalar, Description = [], Name = n, Directives = [],
      Fields = [], EnumValues = [], BuiltIn = builtIn\<rparr>"

definition ex_heap :: "ptr \<Rightarrow> Definition" where
  "ex_heap p =
     (if p = 0 then ex_Query else if p = 1 then ex_User else if p = 2 then ex_Account
      else if p = 3 then ex_Node else if p = 4 then ex_Status
      else if p = 5 then ex_scalar ''Time'' False
      else if p = 6 then ex_scalar ''ID'' True
      else ex_scalar ''String'' True)"

definition ex_types :: "(string \<times> ptr) list" where
  "ex_types = [(''User'', 1), (''Query'', 0), (''String'', 7), (''Account'', 2),
               (''Status'', 4), (''Time'', 5), (''Node'', 3), (''ID'', 6)]"

text \<open>The same map in the order of another run.\<close>

definition ex_types' :: "(string \<times> ptr) list" where
  "ex_types' = [(''ID'', 6), (''Account'', 2), (''Node'', 3), (''Time'', 5),
                (''User'', 1), (''String'', 7), (''Status'', 4), (''Query'', 0)]"

definition ex_cfg :: Config where
  "ex_cfg =
     \<lparr>Schema = \<lparr>Query = Some 0, Mutation = None, Subscription = None,
                 Types = ex_types,
                 Implements = (\<lambda>n. if n = ''User'' then [3] else [])\<rparr>,
      Models =
        [''ID'' \<mapsto> \<lparr>TypeMapEntry.Model = [''github.com/99designs/gqlgen/graphql.ID''],
                     Fields = Map.empty\<rparr>,
         ''String'' \<mapsto> \<lparr>TypeMapEntry.Model = [''github.com/99designs/gqlgen/graphql.String''],
                         Fields = Map.empty\<rparr>,
         ''User'' \<mapsto> \<lparr>TypeMapEntry.Model = [],
                       Fields = [''nick'' \<mapsto> \<lparr>Resolver = False, FieldName = ''Nickname''\<rparr>]\<rparr>],
      Model = \<lparr>PackageConfig.Filename = ''models_gen.go'', Package = ''model'',
                ImportPath = ''myapp/model'', Pkg = ''myapp/model''\<rparr>\<rparr>"

text \<open>The objects, and the build, that a run over the example assembles.\<close>

definition ex_Account_model :: Object where
  "ex_Account_model =
     \<lparr>Object.Description = [], Name = ''Account'',
      Fields =
        [\<lparr>Field.Description = [], Name = ''owner'',
          Type = NewNamed ''myapp/model'' ''Node'' (Some NewInterfaceType),
          Tag = jsonTag ''owner'', Gorm = []\<rparr>],
      Implements = []\<rparr>"

definition ex_User_model :: Object where
  "ex_User_model =
     \<lparr>Object.Description = ''A user'', Name = ''User'',
      Fields =
        [\<lparr>Field.Description = [], Name = ''id'', Type = Basic ''string'',
          Tag = jsonTag ''id'', Gorm = []\<rparr>,
         \<lparr>Field.Description = [], Name = ''name'', Type = NewPointer (Basic ''string''),
          Tag = jsonTag ''name'', Gorm = gormColumn ''name''\<rparr>,
         \<lparr>Field.Description = [], Name = ''Nickname'', Type = NewPointer (Basic ''string''),
          Tag = jsonTag ''nick'', Gorm = gormColumn ''nick_name''\<rparr>,
         \<lparr>Field.Description = [], Name = ''account'',
          Type = NewPointer (NewNamed ''myapp/model'' ''Account'' (Some NewStruct)),
          Tag = jsonTag ''account'', Gorm = []\<rparr>],
      Implements = [''Node'']\<rparr>"

definition ex_build :: ModelBuild where
  "ex_build =
     \<lparr>ModelBuild.PackageName = ''model'',
      Interfaces = [\<lparr>Interface.Description = [], Name = ''Node''\<rparr>],
      Models = [ex_Account_model, ex_User_model],
      Enums =
        [\<lparr>Enum.Description = [], Name = ''Status'',
          Values = [\<lparr>EnumValue.Description = [], Name = ''DONE''\<rparr>,
                    \<lparr>EnumValue.Description = [], Name = ''ACTIVE''\<rparr>]\<rparr>],
      Scalars = [''Time'']\<rparr>"

definition ex_registrations :: "(string \<times> string) list" where
  "ex_registrations =
     [(''Status'', ''myapp/model.Status''), (''Account'', ''myapp/model.Account''),
      (''User'', ''myapp/model.User''), (''Node'', ''myapp/model.Node''),
      (''Time'', ''github.com/99designs/gqlgen/graphql.String'')]"

definition ex_run :: Run where
  "ex_run =
     \<lparr>build = ex_build,
      models = foldl (\<lambda>m (n, t). TypeMap_Add m n t) (Config.Models ex_cfg) ex_registrations,
      trace = map (\<lambda>(n, t). Add n t) ex_registrations @
                [RenderCall \<lparr>Options.PackageName = ''model'', Filename = ''models_gen.go'',
                             Data = ex_build\<rparr>],
      returned = None\<rparr>"

text \<open>
  A schema whose only type has a kind outside the six constants, and one where an object
  has a field of that type.
\<close>

definition odd_Odd :: Definition where
  "odd_Odd =
     \<lparr>Kind = ast_other ''FRAGMENT'', Description = [], Name = ''Odd'', Directives = [],
      Fields = [], EnumValues = [], BuiltIn = False\<rparr>"

definition odd_Holder :: Definition where
  "odd_Holder =
     \<lparr>Kind = ast_Object, Description = [], Name = ''Holder'', Directives = [],
      Fields = [ex_field ''odd'' ''Odd'' False []], EnumValues = [], BuiltIn = False\<rparr>"

definition odd_heap :: "ptr \<Rightarrow> Definition" where
  "odd_heap p = (if p = 0 then odd_Odd else odd_Holder)"

definition odd_cfg :: "(string \<times> ptr) list \<Rightarrow> Config" where
  "odd_cfg ts =
     \<lparr>Schema = \<lparr>Query = None, Mutation = None, Subscription = None,
                 Types = ts, Implements = (\<lambda>n. [])\<rparr>,
      Models = Map.empty,
      Model = \<lparr>PackageConfig.Filename = ''models_gen.go'', Package = ''model'',
                ImportPath = ''myapp/model'', Pkg = ''myapp/model''\<rparr>\<rparr>"

text \<open>A schema with built-in types only.\<close>

definition builtin_cfg :: Config where
  "builtin_cfg = reorder ex_cfg [(''String'', 7), (''ID'', 6)]"

section \<open>Properties of the loops\<close>

lemma fields_loop_Inr:
  "fields_loop ext h cfg st fs it = Inr it' \<Longrightarrow>
   \<exists>flds. it' = it\<lparr>Object.Fields := Object.Fields it @ flds\<rparr> \<and>
          list_all2 (\<lambda>f fld. composeField ext h cfg st f = Inr fld) fs flds"
proof (induction fs arbitrary: it)
  case Nil
  then show ?case by simp
next
  case (Cons f fs)
  from Cons.prems obtain fld where
    c: "composeField ext h cfg st f = Inr fld" and
    r: "fields_loop ext h cfg st fs (it\<lparr>Object.Fields := Object.Fields it @ [fld]\<rparr>) = Inr it'"
    by (auto split: sum.splits)
  from Cons.IH [OF r] obtain flds where
    "it' = it\<lparr>Object.Fields := Object.Fields it @ [fld] @ flds\<rparr>"
    "list_all2 (\<lambda>f fld. composeField ext h cfg st f = Inr fld) fs flds"
    by auto
  with c show ?case
    by (intro exI [of _ "fld # flds"]) simp
qed

lemma classify_append:
  "classify ext h cfg p b =
     (case classify ext h cfg p emptyBuild of
        Inl e \<Rightarrow> Inl e
      | Inr d \<Rightarrow> Inr (appendBuild b d))"
  by (simp add: classify_def emptyBuild_def appendBuild_def Let_def split: sum.splits)

lemma appendBuild_empty [simp]: "appendBuild b emptyBuild = b"
  by (simp add: appendBuild_def emptyBuild_def)

lemma appendBuild_assoc: "appendBuild (appendBuild a b) c = appendBuild a (appendBuild b c)"
  by (simp add: appendBuild_def)

lemma classify_step:
  "classify ext h cfg (snd e) b =
     (if classifies ext h cfg e then Inr (appendBuild b (contribution ext h cfg e))
      else classify ext h cfg (snd e) emptyBuild)"
  by (subst classify_append) (simp add: classifies_def contribution_def split: sum.splits)

lemma types_loop_Inr_iff:
  "(\<exists>b'. types_loop ext h cfg ts b = Inr b') \<longleftrightarrow> (\<forall>e\<in>set ts. classifies ext h cfg e)"
proof (induction ts arbitrary: b)
  case Nil
  then show ?case by simp
next
  case (Cons e ts)
  obtain k p where e: "e = (k, p)" by (cases e)
  show ?case
  proof (cases "classifies ext h cfg e")
    case True
    then show ?thesis
      using Cons.IH classify_step [of ext h cfg e b] by (simp add: e)
  next
    case False
    then have "\<exists>err. classify ext h cfg p b = Inl err"
      using classify_append [of ext h cfg p b]
      by (auto simp: classifies_def e split: sum.splits)
    with False show ?thesis by (auto simp: e)
  qed
qed

lemma types_loop_Inr:
  "types_loop ext h cfg ts b = Inr b' \<Longrightarrow>
   b' = foldl appendBuild b (map (contribution ext h cfg) ts)"
proof (induction ts arbitrary: b)
  case Nil
  then show ?case by simp
next
  case (Cons e ts)
  obtain k p where e: "e = (k, p)" by (cases e)
  from Cons.prems obtain b1 where
    c: "classify ext h cfg p b = Inr b1" and r: "types_loop ext h cfg ts b1 = Inr b'"
    by (auto simp: e split: sum.splits)
  from c have "b1 = appendBuild b (contribution ext h cfg e)"
    using classify_append [of ext h cfg p b]
    by (auto simp: contribution_def e split: sum.splits)
  with Cons.IH [OF r] show ?case by simp
qed

lemma foldl_appendBuild:
  "Enums (foldl appendBuild b ds) = Enums b @ concat (map Enums ds)"
  "ModelBuild.Models (foldl appendBuild b ds) =
     ModelBuild.Models b @ concat (map ModelBuild.Models ds)"
  "Interfaces (foldl appendBuild b ds) = Interfaces b @ concat (map Interfaces ds)"
  "Scalars (foldl appendBuild b ds) = Scalars b @ concat (map Scalars ds)"
  "ModelBuild.PackageName (foldl appendBuild b ds) = ModelBuild.PackageName b"
  by (induction ds arbitrary: b) (simp_all add: appendBuild_def)

lemma contribution_Models:
  "it \<in> set (ModelBuild.Models (contribution ext h cfg e)) \<Longrightarrow> modelFrom ext h cfg (snd e) it"
  by (auto simp: contribution_def classify_def emptyBuild_def modelFrom_def Let_def
           split: sum.splits if_splits dest!: fields_loop_Inr)

lemma names_contribution:
  "names (contribution ext h cfg e) \<subseteq># {#Definition.Name (h (snd e))#}"
  by (auto simp: contribution_def classify_def emptyBuild_def names_def Let_def
           split: sum.splits if_splits dest!: fields_loop_Inr)

lemma names_appendBuild: "names (appendBuild b d) = names b + names d"
  by (simp add: names_def appendBuild_def)

lemma names_foldl:
  "names (foldl appendBuild b ds) = names b + (\<Sum>d\<leftarrow>ds. names d)"
  by (induction ds arbitrary: b) (simp_all add: names_appendBuild)

lemma names_sum_bound:
  "(\<Sum>d\<leftarrow>map (contribution ext h cfg) ts. names d) \<subseteq>#
     mset (map (\<lambda>e. Definition.Name (h (snd e))) ts)"
proof (induction ts)
  case Nil
  then show ?case by simp
next
  case (Cons e ts)
  have "names (contribution ext h cfg e) + (\<Sum>d\<leftarrow>map (contribution ext h cfg) ts. names d)
          \<subseteq># {#Definition.Name (h (snd e))#} + mset (map (\<lambda>e. Definition.Name (h (snd e))) ts)"
    by (rule mset_subset_eq_mono_add [OF names_contribution Cons.IH])
  then show ?case by simp
qed

lemma add_all_eq:
  "add_all xs (tm, tr) =
     (foldl (\<lambda>m (n, t). TypeMap_Add m n t) tm xs, tr @ map (\<lambda>(n, t). Add n t) xs)"
  by (induction xs arbitrary: tm tr) auto

lemma MutateConfig_eq:
  "MutateConfig ext h cfg =
     (case types_loop ext h cfg (Types (Config.Schema cfg)) (initialBuild cfg) of
        Inl e \<Rightarrow> Inl e
      | Inr b0 \<Rightarrow>
         Inr \<lparr>build = sortBuild b0,
              models = foldl (\<lambda>m (n, t). TypeMap_Add m n t) (Config.Models cfg)
                         (registrations ext cfg (sortBuild b0)),
              trace = map (\<lambda>(n, t). Add n t) (registrations ext cfg (sortBuild b0)) @
                        (if nothingToGenerate (sortBuild b0) then []
                         else [RenderCall (renderOptions cfg (sortBuild b0))]),
              returned = (if nothingToGenerate (sortBuild b0) then None
                          else Render ext (renderOptions cfg (sortBuild b0)))\<rparr>)"
proof (cases "types_loop ext h cfg (Types (Config.Schema cfg)) (initialBuild cfg)")
  case (Inl e)
  then show ?thesis
    by (simp add: MutateConfig_def initialBuild_def)
next
  case (Inr b0)
  show ?thesis
  proof (cases "nothingToGenerate (sortBuild b0)")
    case True
    with Inr show ?thesis
      unfolding MutateConfig_def initialBuild_def [symmetric] Let_def sortBuild_def [symmetric]
      by (simp add: add_all_eq registrations_def nothingToGenerate_def)
  next
    case False
    with Inr show ?thesis
      unfolding MutateConfig_def initialBuild_def [symmetric] Let_def sortBuild_def [symmetric]
      by (simp add: add_all_eq registrations_def nothingToGenerate_def renderOptions_def)
  qed
qed

lemma MutateConfig_Inr:
  assumes "MutateConfig ext h cfg = Inr r"
  obtains b0 where
    "types_loop ext h cfg (Types (Config.Schema cfg)) (initialBuild cfg) = Inr b0"
    "build r = sortBuild b0"
    "trace r = map (\<lambda>(n, t). Add n t) (registrations ext cfg (build r)) @
               (if nothingToGenerate (build r) then []
                else [RenderCall (renderOptions cfg (build r))])"
    "returned r = (if nothingToGenerate (build r) then None
                   else Render ext (renderOptions cfg (build r)))"
    "models r = foldl (\<lambda>m (n, t). TypeMap_Add m n t) (Config.Models cfg)
                  (registrations ext cfg (build r))"
  using assms unfolding MutateConfig_eq by (auto split: sum.splits)

lemma names_sortBuild: "names (sortBuild b) = names b"
  by (simp add: names_def sortBuild_def)

lemma names_initialBuild: "names (initialBuild cfg) = {#}"
  by (simp add: names_def initialBuild_def)

lemma names_types_loop:
  assumes "types_loop ext h cfg ts (initialBuild cfg) = Inr b0"
    and "\<forall>(k, p)\<in>set ts. Definition.Name (h p) = k"
  shows "names b0 \<subseteq># mset (map fst ts)"
proof -
  have eq: "map (\<lambda>e. Definition.Name (h (snd e))) ts = map fst ts"
    using assms(2) by (induction ts) auto
  have "(\<Sum>d\<leftarrow>map (contribution ext h cfg) ts. names d) \<subseteq># mset (map fst ts)"
    using names_sum_bound [of ext h cfg ts] unfolding eq .
  moreover have "names b0 = (\<Sum>d\<leftarrow>map (contribution ext h cfg) ts. names d)"
    unfolding types_loop_Inr [OF assms(1)] names_foldl names_initialBuild by simp
  ultimately show ?thesis by simp
qed

lemma distinct_of_subseteq_mset:
  assumes "mset xs \<subseteq># mset ys" and "distinct ys"
  shows "distinct xs"
proof -
  have "count (mset xs) a = (if a \<in> set xs then 1 else 0)" for a
  proof (cases "a \<in> set xs")
    case True
    then have "1 \<le> count (mset xs) a"
      by (simp add: count_greater_eq_one_iff)
    moreover have "count (mset xs) a \<le> count (mset ys) a"
      by (rule mset_subset_eq_count [OF assms(1)])
    moreover have "count (mset ys) a \<le> 1"
      using assms(2) by (simp add: distinct_count_atmost_1)
    ultimately have "count (mset xs) a = 1" by linarith
    with True show ?thesis by simp
  next
    case False
    then show ?thesis by (simp add: count_eq_zero_iff)
  qed
  then show ?thesis
    by (simp add: distinct_count_atmost_1)
qed

lemma names_distinct:
  assumes "names b \<subseteq># mset ks" and "distinct ks"
  shows "distinct (map Enum.Name (Enums b) @ map Object.Name (ModelBuild.Models b) @
                   map Interface.Name (Interfaces b) @ Scalars b)"
proof (rule distinct_of_subseteq_mset [OF _ assms(2)])
  have "mset (map Enum.Name (Enums b) @ map Object.Name (ModelBuild.Models b) @
              map Interface.Name (Interfaces b) @ Scalars b) = names b"
    unfolding names_def mset_append by (simp only: add.assoc)
  with assms(1) show "mset (map Enum.Name (Enums b) @ map Object.Name (ModelBuild.Models b) @
              map Interface.Name (Interfaces b) @ Scalars b) \<subseteq># mset ks"
    by simp
qed

lemma mset_concat_map_cong:
  assumes "mset ts = mset ts'"
  shows "mset (concat (map f ts)) = mset (concat (map f ts'))"
proof -
  have "mset (concat (map f xs)) = (\<Sum>x\<in>#mset xs. mset (f x))" for xs
    by (induction xs) simp_all
  with assms show ?thesis by simp
qed

lemma reorder_sel:
  "Config.Model (reorder cfg ts') = Config.Model cfg"
  "Config.Models (reorder cfg ts') = Config.Models cfg"
  "Query (Config.Schema (reorder cfg ts')) = Query (Config.Schema cfg)"
  "Mutation (Config.Schema (reorder cfg ts')) = Mutation (Config.Schema cfg)"
  "Subscription (Config.Schema (reorder cfg ts')) = Subscription (Config.Schema cfg)"
  "Schema.Implements (Config.Schema (reorder cfg ts')) = Schema.Implements (Config.Schema cfg)"
  "Types (Config.Schema (reorder cfg ts')) = ts'"
  by (simp_all add: reorder_def)

lemma composeField_reorder:
  assumes "map_of ts' = map_of (Types (Config.Schema cfg))"
  shows "composeField ext h (reorder cfg ts') st f = composeField ext h cfg st f"
proof -
  have 1: "Schema_Types_lookup h (Config.Schema (reorder cfg ts')) n =
           Schema_Types_lookup h (Config.Schema cfg) n" for n
    using assms by (simp add: Schema_Types_lookup_def reorder_sel)
  have 2: "fieldBaseType ext (reorder cfg ts') d n = fieldBaseType ext cfg d n" for d n
    unfolding fieldBaseType_def reorder_sel ..
  have 3: "fieldName (reorder cfg ts') st f = fieldName cfg st f"
    unfolding fieldName_def reorder_sel ..
  show ?thesis
    unfolding composeField_def 1 2 3 ..
qed

lemma fields_loop_reorder:
  "map_of ts' = map_of (Types (Config.Schema cfg)) \<Longrightarrow>
   fields_loop ext h (reorder cfg ts') st fs it = fields_loop ext h cfg st fs it"
  by (induction fs arbitrary: it) (simp_all add: composeField_reorder cong: sum.case_cong)

lemma classify_reorder:
  assumes "map_of ts' = map_of (Types (Config.Schema cfg))"
  shows "classify ext h (reorder cfg ts') p b = classify ext h cfg p b"
proof -
  have 1: "isRoot (Config.Schema (reorder cfg ts')) p = isRoot (Config.Schema cfg) p"
    by (simp add: isRoot_def reorder_sel)
  have 2: "GetImplements (Config.Schema (reorder cfg ts')) d = GetImplements (Config.Schema cfg) d"
    for d by (simp add: GetImplements_def reorder_sel)
  show ?thesis
    unfolding classify_def 1 2 fields_loop_reorder [OF assms] ..
qed

lemma types_loop_reorder:
  "map_of ts' = map_of (Types (Config.Schema cfg)) \<Longrightarrow>
   types_loop ext h (reorder cfg ts') ts b = types_loop ext h cfg ts b"
  by (induction ts arbitrary: b) (auto simp: classify_reorder cong: sum.case_cong)

lemma initialBuild_reorder: "initialBuild (reorder cfg ts') = initialBuild cfg"
  by (simp add: initialBuild_def reorder_sel)

lemma sort_key_perm_unique:
  assumes "mset xs = mset ys" and "distinct (map f xs)"
  shows "sort_key f xs = sort_key f ys"
proof (rule sort_key_inj_key_eq)
  show "mset xs = mset (sort_key f ys)" using assms(1) by simp
  show "inj_on f (set xs)" using assms(2) by (simp add: distinct_map)
  show "sorted (map f (sort_key f ys))" by (rule sorted_sort_key)
qed

lemma types_loop_collections:
  assumes "types_loop ext h cfg ts (initialBuild cfg) = Inr b0"
  shows "Enums b0 = concat (map (\<lambda>e. Enums (contribution ext h cfg e)) ts)"
    and "ModelBuild.Models b0 = concat (map (\<lambda>e. ModelBuild.Models (contribution ext h cfg e)) ts)"
    and "Interfaces b0 = concat (map (\<lambda>e. Interfaces (contribution ext h cfg e)) ts)"
    and "Scalars b0 = concat (map (\<lambda>e. Scalars (contribution ext h cfg e)) ts)"
  unfolding types_loop_Inr [OF assms] foldl_appendBuild
  by (simp_all add: initialBuild_def comp_def)

lemma Models_provenance:
  assumes "MutateConfig ext h cfg = Inr r" and "m \<in> set (ModelBuild.Models (build r))"
  shows "\<exists>(k, p)\<in>set (Types (Config.Schema cfg)). modelFrom ext h cfg p m"
proof -
  from assms(1) obtain b0 where
    b0: "types_loop ext h cfg (Types (Config.Schema cfg)) (initialBuild cfg) = Inr b0"
    and r: "build r = sortBuild b0"
    by (rule MutateConfig_Inr)
  from assms(2) have "m \<in> set (ModelBuild.Models b0)"
    by (simp add: r sortBuild_def)
  then obtain e where "e \<in> set (Types (Config.Schema cfg))"
    "m \<in> set (ModelBuild.Models (contribution ext h cfg e))"
    unfolding types_loop_collections(2) [OF b0] by auto
  then show ?thesis
    using contribution_Models [of m ext h cfg e]
    by (intro bexI [of _ e]) (auto simp: case_prod_unfold)
qed

lemma names_build:
  assumes "MutateConfig ext h cfg = Inr r" and "schema_named h (Config.Schema cfg)"
  shows "names (build r) \<subseteq># mset (map fst (Types (Config.Schema cfg)))"
proof -
  from assms(1) obtain b0 where
    b0: "types_loop ext h cfg (Types (Config.Schema cfg)) (initialBuild cfg) = Inr b0"
    and r: "build r = sortBuild b0"
    by (rule MutateConfig_Inr)
  from assms(2) have "\<forall>(k, p)\<in>set (Types (Config.Schema cfg)). Definition.Name (h p) = k"
    by (simp add: schema_named_def)
  from names_types_loop [OF b0 this] show ?thesis
    by (simp add: r names_sortBuild)
qed

lemma collections_distinct:
  assumes "MutateConfig ext h cfg = Inr r" and "schema_named h (Config.Schema cfg)"
  shows "distinct (map Enum.Name (Enums (build r)) @ map Object.Name (ModelBuild.Models (build r)) @
                   map Interface.Name (Interfaces (build r)) @ Scalars (build r))"
  using names_distinct [OF names_build [OF assms]] assms(2) by (simp add: schema_named_def)

lemma reorder_run:
  assumes run: "MutateConfig ext h cfg = Inr r"
    and named: "schema_named h (Config.Schema cfg)"
    and perm: "mset ts' = mset (Types (Config.Schema cfg))"
  shows "\<exists>r'. MutateConfig ext h (reorder cfg ts') = Inr r' \<and>
              Enums (build r') = Enums (build r) \<and>
              ModelBuild.Models (build r') = ModelBuild.Models (build r) \<and>
              Interfaces (build r') = Interfaces (build r)"
proof -
  let ?ts = "Types (Config.Schema cfg)"
  from run obtain b0 where
    b0: "types_loop ext h cfg ?ts (initialBuild cfg) = Inr b0" and r: "build r = sortBuild b0"
    by (rule MutateConfig_Inr)
  from named have d: "distinct (map fst ?ts)"
    and nm: "\<forall>(k, p)\<in>set ?ts. Definition.Name (h p) = k"
    by (simp_all add: schema_named_def)
  from perm have set_eq: "set ts' = set ?ts" by (rule mset_eq_setD)
  from perm have "mset (map fst ts') = mset (map fst ?ts)" by simp
  with d have d': "distinct (map fst ts')" by (metis mset_eq_imp_distinct_iff)
  from d d' set_eq have m: "map_of ts' = map_of ?ts"
    by (simp add: map_of_inject_set)
  have "\<forall>e\<in>set ?ts. classifies ext h cfg e"
    using types_loop_Inr_iff [of ext h cfg ?ts "initialBuild cfg"] b0 by blast
  then have "\<exists>b'. types_loop ext h cfg ts' (initialBuild cfg) = Inr b'"
    unfolding types_loop_Inr_iff set_eq .
  then obtain b0' where b0': "types_loop ext h cfg ts' (initialBuild cfg) = Inr b0'" ..
  have e: "mset (Enums b0') = mset (Enums b0)"
    and o: "mset (ModelBuild.Models b0') = mset (ModelBuild.Models b0)"
    and i: "mset (Interfaces b0') = mset (Interfaces b0)"
    unfolding types_loop_collections [OF b0] types_loop_collections [OF b0']
    by (rule mset_concat_map_cong [OF perm])+
  have "distinct (map Enum.Name (Enums b0) @ map Object.Name (ModelBuild.Models b0) @
                  map Interface.Name (Interfaces b0) @ Scalars b0)"
    by (rule names_distinct [OF names_types_loop [OF b0 nm] d])
  then have "distinct (map Enum.Name (Enums b0))"
    "distinct (map Object.Name (ModelBuild.Models b0))"
    "distinct (map Interface.Name (Interfaces b0))"
    by simp_all
  then have "sortBuild b0' =
               (sortBuild b0)\<lparr>Scalars := Scalars b0',
                              ModelBuild.PackageName := ModelBuild.PackageName b0'\<rparr>"
    unfolding sortBuild_def
    using sort_key_perm_unique [OF e [symmetric], of Enum.Name]
      sort_key_perm_unique [OF o [symmetric], of Object.Name]
      sort_key_perm_unique [OF i [symmetric], of Interface.Name]
    by simp
  moreover have "types_loop ext h (reorder cfg ts') (Types (Config.Schema (reorder cfg ts')))
                   (initialBuild (reorder cfg ts')) = Inr b0'"
    by (simp add: reorder_sel initialBuild_reorder types_loop_reorder [OF m] b0')
  ultimately show ?thesis
    unfolding MutateConfig_eq [of ext h "reorder cfg ts'"] by (simp add: r)
qed

lemma composeField_Inr:
  assumes "composeField ext h cfg st f = Inr fld"
  shows "Field.Tag fld = jsonTag (FieldDefinition.Name f)"
    and "Field.Gorm fld = gormType f"
    and "Field.Name fld = fieldName cfg st f"
    and "Field.Description fld = FieldDefinition.Description f"
  using assms by (auto simp: composeField_def Let_def split: sum.splits)

lemma types_loop_BuiltIn:
  "\<forall>(k, p)\<in>set ts. BuiltIn (h p) \<Longrightarrow> types_loop ext h cfg ts b = Inr b"
  by (induction ts arbitrary: b) (auto simp: classify_def)

lemma TypeMap_get_Add:
  "TypeMap_get (TypeMap_Add tm n t) n' =
     (if n' = n
      then (TypeMap_get tm n)\<lparr>TypeMapEntry.Model := TypeMapEntry.Model (TypeMap_get tm n) @ [t]\<rparr>
      else TypeMap_get tm n')"
  by (simp add: TypeMap_get_def TypeMap_Add_def Let_def)

lemma foldl_Add_other:
  "n \<notin> fst ` set xs \<Longrightarrow>
   TypeMap_get (foldl (\<lambda>m (n, t). TypeMap_Add m n t) tm xs) n = TypeMap_get tm n"
  by (induction xs arbitrary: tm) (auto simp: TypeMap_get_Add)

lemma foldl_Add_once:
  "distinct (map fst xs) \<Longrightarrow> (n, t) \<in> set xs \<Longrightarrow>
   TypeMapEntry.Model (TypeMap_get (foldl (\<lambda>m (n, t). TypeMap_Add m n t) tm xs) n) =
     TypeMapEntry.Model (TypeMap_get tm n) @ [t]"
proof (induction xs arbitrary: tm)
  case Nil
  then show ?case by simp
next
  case (Cons x xs)
  obtain n' t' where x: "x = (n', t')" by (cases x)
  show ?case
  proof (cases "(n, t) \<in> set xs")
    case True
    with Cons.prems have "n' \<noteq> n" by (force simp: x)
    with Cons.IH [OF _ True, of "TypeMap_Add tm n' t'"] Cons.prems show ?thesis
      by (simp add: x TypeMap_get_Add)
  next
    case False
    with Cons.prems have eq: "n' = n" "t' = t" and "n \<notin> fst ` set xs"
      by (auto simp: x)
    then show ?thesis
      by (simp add: x foldl_Add_other TypeMap_get_Add)
  qed
qed

lemma list_all2_map_eq:
  "list_all2 (\<lambda>x y. f x = g y) xs ys \<Longrightarrow> map f xs = map g ys"
  by (induction rule: list_all2_induct) simp_all

subsection \<open>The example runs\<close>

lemmas ex_defs = ex_ext_def isDatabaseField_def ex_field_def ex_id_def ex_name_def ex_nick_def
  ex_account_def ex_owner_def ex_Query_def ex_User_def ex_Account_def ex_Node_def ex_Status_def
  ex_scalar_def ex_heap_def ex_cfg_def
lemmas field_defs = composeField_def fieldBaseType_def fieldName_def
  forcePointer_def gormType_def isStruct_def
  Schema_Types_lookup_def TypeMap_get_def Fields_get_def UserDefined_def
  DirectiveList_ForName_def ArgumentList_ForName_def

lemmas run_defs = classify_def isRoot_def GetImplements_def initialBuild_def sortBuild_def
  registrations_def nothingToGenerate_def renderOptions_def generatedPath_def graphqlString_def

lemma ex_types_loop:
  "types_loop ex_ext ex_heap ex_cfg ex_types (initialBuild ex_cfg) =
     Inr (ex_build\<lparr>Models := [ex_User_model, ex_Account_model]\<rparr>)"
  by (simp add: ex_defs field_defs run_defs ex_types_def ex_User_model_def
        ex_Account_model_def ex_build_def)

lemma ex_MutateConfig: "MutateConfig ex_ext ex_heap ex_cfg = Inr ex_run"
proof -
  have "Types (Config.Schema ex_cfg) = ex_types" by (simp add: ex_cfg_def)
  then show ?thesis
    unfolding MutateConfig_eq ex_types_loop
    by (simp add: ex_types_loop)
       (simp add: ex_run_def ex_build_def ex_registrations_def ex_User_model_def
          ex_Account_model_def sortBuild_def registrations_def nothingToGenerate_def
          renderOptions_def generatedPath_def graphqlString_def ex_cfg_def ex_ext_def)
qed

lemma ex_schema_named: "schema_named ex_heap (Config.Schema ex_cfg)"
  by (simp add: schema_named_def ex_defs ex_types_def)

lemma ex_types_perm: "mset ex_types' = mset (Types (Config.Schema ex_cfg))"
  by (simp add: ex_cfg_def ex_types_def ex_types'_def)

lemma ex_compose_account:
  "composeField ex_ext ex_heap ex_cfg ex_User ex_account =
     Inr \<lparr>Field.Description = [], Name = ''account'',
          Type = NewPointer (NewNamed ''myapp/model'' ''Account'' (Some NewStruct)),
          Tag = jsonTag ''account'', Gorm = []\<rparr>"
  by (simp add: ex_defs field_defs ex_types_def)

lemma ex_compose_name:
  "composeField ex_ext ex_heap ex_cfg ex_User ex_name =
     Inr \<lparr>Field.Description = [], Name = ''name'', Type = NewPointer (Basic ''string''),
          Tag = jsonTag ''name'', Gorm = gormColumn ''name''\<rparr>"
  by (simp add: ex_defs field_defs ex_types_def)

lemma ex_compose_nick:
  "composeField ex_ext ex_heap ex_cfg ex_User ex_nick =
     Inr \<lparr>Field.Description = [], Name = ''Nickname'', Type = NewPointer (Basic ''string''),
          Tag = jsonTag ''nick'', Gorm = gormColumn ''nick_name''\<rparr>"
  by (simp add: ex_defs field_defs ex_types_def)

section \<open>The claims\<close>

text \<open>
  C1. The claim: a type that is not built in and whose kind is none of the known kinds stops
  the run. The switch of line 115 has no default branch. At the schema whose only type
  \<^verbatim>\<open>Odd\<close> has the kind \<^verbatim>\<open>FRAGMENT\<close>, the run completes, registers nothing, renders nothing
  and returns nil: the type is skipped. The switch over the kind of a field's type
  (line 146) does have the default branch: once an object \<^verbatim>\<open>Holder\<close> has a field of type
  \<^verbatim>\<open>Odd\<close>, the run panics with "unknown ast type".
\<close>

theorem C1_unknown_kind_is_skipped:
  "Kind odd_Odd = ast_other ''FRAGMENT'' \<and> \<not> BuiltIn odd_Odd \<and>
   MutateConfig ex_ext odd_heap (odd_cfg [(''Odd'', 0)]) =
     Inr \<lparr>build = initialBuild (odd_cfg [(''Odd'', 0)]), models = Map.empty, trace = [],
          returned = None\<rparr> \<and>
   MutateConfig ex_ext odd_heap (odd_cfg [(''Odd'', 0), (''Holder'', 1)]) =
     Inl (PanicUnknownAstType (ast_other ''FRAGMENT''))"
  by (simp add: MutateConfig_def odd_Odd_def odd_Holder_def odd_heap_def odd_cfg_def
        ex_field_def ex_ext_def field_defs run_defs)

text \<open>
  C2. When a run reaches the end of the classification, the Enums, the Models and the
  Interfaces of the build are each in ascending order of name. For a schema as the parser
  builds it (every type stored once, under its own name), a run that ranges over the same
  types in any other order also completes, and its three collections are the same lists.
  The names of each collection are then distinct, so the lists do not depend on how the
  sort places entries of equal name.
\<close>

theorem C2_sorted_and_reproducible:
  assumes "MutateConfig ext h cfg = Inr r"
  shows "sorted (map Enum.Name (Enums (build r))) \<and>
         sorted (map Object.Name (ModelBuild.Models (build r))) \<and>
         sorted (map Interface.Name (Interfaces (build r))) \<and>
         (schema_named h (Config.Schema cfg) \<longrightarrow>
            (\<forall>ts'. mset ts' = mset (Types (Config.Schema cfg)) \<longrightarrow>
               (\<exists>r'. MutateConfig ext h (reorder cfg ts') = Inr r' \<and>
                     Enums (build r') = Enums (build r) \<and>
                     ModelBuild.Models (build r') = ModelBuild.Models (build r) \<and>
                     Interfaces (build r') = Interfaces (build r))))"
proof -
  from assms obtain b0 where r: "build r = sortBuild b0"
    by (rule MutateConfig_Inr)
  have "sorted (map Enum.Name (Enums (build r)))"
    "sorted (map Object.Name (ModelBuild.Models (build r)))"
    "sorted (map Interface.Name (Interfaces (build r)))"
    by (simp_all add: r sortBuild_def)
  with reorder_run [OF assms] show ?thesis by blast
qed

theorem C2_sorted_and_reproducible_witness:
  "MutateConfig ex_ext ex_heap ex_cfg = Inr ex_run \<and>
   schema_named ex_heap (Config.Schema ex_cfg) \<and>
   mset ex_types' = mset (Types (Config.Schema ex_cfg)) \<and>
   map Object.Name (ModelBuild.Models (build ex_run)) = [''Account'', ''User''] \<and>
   sorted (map Enum.Name (Enums (build ex_run))) \<and>
   sorted (map Object.Name (ModelBuild.Models (build ex_run))) \<and>
   sorted (map Interface.Name (Interfaces (build ex_run))) \<and>
   (\<exists>r'. MutateConfig ex_ext ex_heap (reorder ex_cfg ex_types') = Inr r' \<and>
         Enums (build r') = Enums (build ex_run) \<and>
         ModelBuild.Models (build r') = ModelBuild.Models (build ex_run) \<and>
         Interfaces (build r') = Interfaces (build ex_run))"
  using C2_sorted_and_reproducible [OF ex_MutateConfig] ex_MutateConfig ex_schema_named
    ex_types_perm
  by (simp add: ex_run_def ex_build_def ex_User_model_def ex_Account_model_def)

text \<open>
  C3. Every object in Models of a completed run was generated for an entry of \<^verbatim>\<open>Types\<close> that
  is none of the Query, Mutation and Subscription roots. For a schema as the parser builds
  it, no object in Models carries the name of a root, although the root is an object type.
\<close>

theorem C3_roots_are_no_models:
  assumes "MutateConfig ext h cfg = Inr r"
  shows "(\<forall>m\<in>set (ModelBuild.Models (build r)).
            \<exists>(k, p)\<in>set (Types (Config.Schema cfg)). modelFrom ext h cfg p m) \<and>
         (schema_named h (Config.Schema cfg) \<longrightarrow>
            (\<forall>(k, p)\<in>set (Types (Config.Schema cfg)).
               isRoot (Config.Schema cfg) p \<longrightarrow>
               Definition.Name (h p) \<notin> set (map Object.Name (ModelBuild.Models (build r)))))"
proof (intro conjI impI ballI)
  fix m assume "m \<in> set (ModelBuild.Models (build r))"
  then show "\<exists>(k, p)\<in>set (Types (Config.Schema cfg)). modelFrom ext h cfg p m"
    by (rule Models_provenance [OF assms])
next
  fix e
  assume named: "schema_named h (Config.Schema cfg)"
    and e: "e \<in> set (Types (Config.Schema cfg))"
  obtain k p where kp: "e = (k, p)" by (cases e)
  show "case e of (k, p) \<Rightarrow> isRoot (Config.Schema cfg) p \<longrightarrow>
          Definition.Name (h p) \<notin> set (map Object.Name (ModelBuild.Models (build r)))"
    unfolding kp prod.case
  proof (intro impI notI)
    assume root: "isRoot (Config.Schema cfg) p"
      and "Definition.Name (h p) \<in> set (map Object.Name (ModelBuild.Models (build r)))"
    then obtain m where m: "m \<in> set (ModelBuild.Models (build r))"
      and nm: "Object.Name m = Definition.Name (h p)"
      by auto
    from Models_provenance [OF assms m] obtain k' p' where
      e': "(k', p') \<in> set (Types (Config.Schema cfg))" and mf: "modelFrom ext h cfg p' m"
      by auto
    from named e e' have "Definition.Name (h p) = k" "Definition.Name (h p') = k'"
      by (auto simp: schema_named_def kp)
    with nm mf have "k' = k" by (simp add: modelFrom_def)
    with named e e' have "p' = p"
      by (auto simp: schema_named_def kp dest: eq_key_imp_eq_value)
    with mf root show False by (simp add: modelFrom_def)
  qed
qed

theorem C3_roots_are_no_models_witness:
  "MutateConfig ex_ext ex_heap ex_cfg = Inr ex_run \<and>
   schema_named ex_heap (Config.Schema ex_cfg) \<and>
   (''Query'', 0) \<in> set (Types (Config.Schema ex_cfg)) \<and>
   isRoot (Config.Schema ex_cfg) 0 \<and>
   Kind (ex_heap 0) = ast_Object \<and>
   Definition.Name (ex_heap 0) = ''Query'' \<and>
   ''Query'' \<notin> set (map Object.Name (ModelBuild.Models (build ex_run))) \<and>
   (\<exists>(k, p)\<in>set (Types (Config.Schema ex_cfg)). modelFrom ex_ext ex_heap ex_cfg p ex_User_model)"
proof -
  have 1: "(''Query'', 0) \<in> set (Types (Config.Schema ex_cfg))"
    and 2: "isRoot (Config.Schema ex_cfg) 0"
    and 3: "Kind (ex_heap 0) = ast_Object" "Definition.Name (ex_heap 0) = ''Query''"
    and 4: "ex_User_model \<in> set (ModelBuild.Models (build ex_run))"
    by (simp_all add: ex_cfg_def ex_types_def isRoot_def ex_heap_def ex_Query_def ex_run_def
          ex_build_def)
  from C3_roots_are_no_models [OF ex_MutateConfig] ex_schema_named 1 2 3 4 ex_MutateConfig
  show ?thesis by fastforce
qed

text \<open>
  C4. Let the type a field names be an object or input object of the schema, and let the
  reference resolved for the field (the user's model or the synthesised type, with the
  modifiers of the declared type copied onto it) be struct-shaped. Then the field is
  composed, and the type stored in the field descriptor is the pointer to that reference.
  The declared type enters only through the \<^verbatim>\<open>Binder\<close>'s \<^verbatim>\<open>CopyModifiersFromAst\<close>; nothing
  depends on whether it is required.
\<close>

theorem C4_struct_fields_are_pointers:
  assumes "AstType_Name (FieldDefinition.Type f) = Inr tname"
    and "Schema_Types_lookup h (Config.Schema cfg) tname = Some d"
    and "Kind d = ast_Object \<or> Kind d = ast_InputObject"
    and "fieldBaseType ext cfg (Some d) tname = Inr typ0"
    and "isStruct (CopyModifiersFromAst ext (FieldDefinition.Type f) typ0)"
  shows "\<exists>fld. composeField ext h cfg st f = Inr fld \<and>
               Field.Type fld = NewPointer (CopyModifiersFromAst ext (FieldDefinition.Type f) typ0)"
  using assms by (auto simp: composeField_def forcePointer_def Let_def)

theorem C4_struct_fields_are_pointers_witness:
  "AstType_Name (FieldDefinition.Type ex_account) = Inr ''Account'' \<and>
   NonNull (FieldDefinition.Type ex_account) \<and>
   Schema_Types_lookup ex_heap (Config.Schema ex_cfg) ''Account'' = Some ex_Account \<and>
   Kind ex_Account = ast_Object \<and>
   fieldBaseType ex_ext ex_cfg (Some ex_Account) ''Account'' =
     Inr (NewNamed ''myapp/model'' ''Account'' (Some NewStruct)) \<and>
   CopyModifiersFromAst ex_ext (FieldDefinition.Type ex_account)
     (NewNamed ''myapp/model'' ''Account'' (Some NewStruct)) =
     NewNamed ''myapp/model'' ''Account'' (Some NewStruct) \<and>
   isStruct (NewNamed ''myapp/model'' ''Account'' (Some NewStruct)) \<and>
   (\<exists>fld. composeField ex_ext ex_heap ex_cfg ex_User ex_account = Inr fld \<and>
          Field.Type fld = NewPointer (NewNamed ''myapp/model'' ''Account'' (Some NewStruct)))"
proof -
  have 1: "AstType_Name (FieldDefinition.Type ex_account) = Inr ''Account''"
    and 2: "Schema_Types_lookup ex_heap (Config.Schema ex_cfg) ''Account'' = Some ex_Account"
    and 3: "Kind ex_Account = ast_Object"
    and 4: "fieldBaseType ex_ext ex_cfg (Some ex_Account) ''Account'' =
              Inr (NewNamed ''myapp/model'' ''Account'' (Some NewStruct))"
    and 5: "CopyModifiersFromAst ex_ext (FieldDefinition.Type ex_account)
              (NewNamed ''myapp/model'' ''Account'' (Some NewStruct)) =
            NewNamed ''myapp/model'' ''Account'' (Some NewStruct)"
    and 6: "isStruct (NewNamed ''myapp/model'' ''Account'' (Some NewStruct))"
    and 7: "NonNull (FieldDefinition.Type ex_account)"
    by (simp_all add: ex_defs field_defs ex_types_def)
  from 5 6 have 8: "isStruct (CopyModifiersFromAst ex_ext (FieldDefinition.Type ex_account)
              (NewNamed ''myapp/model'' ''Account'' (Some NewStruct)))"
    by simp
  from C4_struct_fields_are_pointers [OF 1 2 disjI1 [OF 3] 4 8, where st = ex_User]
    1 2 3 4 5 6 7
  show ?thesis by simp
qed

text \<open>
  C5, as stated: a field of an object type that carries \<^verbatim>\<open>@isDatabaseField\<close> at the type
  level receives a persistence tag. The type \<^verbatim>\<open>Account\<close> of the example carries the
  directive, its field \<^verbatim>\<open>owner\<close> does not, and the field generated for \<^verbatim>\<open>owner\<close> has the
  empty \<^verbatim>\<open>Gorm\<close> string: line 196 reads the directives of the field only.
\<close>

theorem C5_type_level_directive_counterexample:
  "DirectiveList_ForName (Definition.Directives (ex_heap 2)) ''isDatabaseField'' =
     Some (isDatabaseField []) \<and>
   classify ex_ext ex_heap ex_cfg 2 (initialBuild ex_cfg) =
     Inr ((initialBuild ex_cfg)\<lparr>Models := [ex_Account_model]\<rparr>) \<and>
   map Field.Gorm (Object.Fields ex_Account_model) = [[]]"
  by (simp add: ex_defs field_defs run_defs ex_types_def ex_Account_model_def)

text \<open>
  C5, amended: a composed field has a persistence tag exactly when the field itself carries
  the \<^verbatim>\<open>@isDatabaseField\<close> directive; the directives of the enclosing type do not change
  the composed field.
\<close>

theorem C5_field_directive_gives_tag:
  assumes "composeField ext h cfg st f = Inr fld"
  shows "(Field.Gorm fld \<noteq> [] \<longleftrightarrow>
            DirectiveList_ForName (FieldDefinition.Directives f) ''isDatabaseField'' \<noteq> None) \<and>
         composeField ext h cfg (st\<lparr>Definition.Directives := ds\<rparr>) f = Inr fld"
proof -
  have "Field.Gorm fld = gormType f"
    by (rule composeField_Inr [OF assms])
  moreover have n: "fieldName cfg (st\<lparr>Definition.Directives := ds\<rparr>) f = fieldName cfg st f"
    by (simp add: fieldName_def)
  have "composeField ext h cfg (st\<lparr>Definition.Directives := ds\<rparr>) f =
        composeField ext h cfg st f"
    unfolding composeField_def n ..
  ultimately show ?thesis
    using assms by (auto simp: gormType_def gormColumn_def split: option.splits)
qed

theorem C5_field_directive_gives_tag_witness:
  "composeField ex_ext ex_heap ex_cfg ex_User ex_name =
     Inr \<lparr>Field.Description = [], Name = ''name'', Type = NewPointer (Basic ''string''),
          Tag = jsonTag ''name'', Gorm = gormColumn ''name''\<rparr> \<and>
   gormColumn ''name'' \<noteq> [] \<and>
   DirectiveList_ForName (FieldDefinition.Directives ex_name) ''isDatabaseField'' \<noteq> None \<and>
   composeField ex_ext ex_heap ex_cfg (ex_User\<lparr>Definition.Directives := [isDatabaseField []]\<rparr>)
     ex_name =
     Inr \<lparr>Field.Description = [], Name = ''name'', Type = NewPointer (Basic ''string''),
          Tag = jsonTag ''name'', Gorm = gormColumn ''name''\<rparr>"
  using C5_field_directive_gives_tag [OF ex_compose_name, of "[isDatabaseField []]"]
    ex_compose_name
  by (simp add: gormColumn_def)

text \<open>
  C6. For a composed field that carries the \<^verbatim>\<open>@isDatabaseField\<close> directive, the persistence
  tag is \<^verbatim>\<open>gorm:"column:NAME"\<close>, where NAME is the raw value of the directive's \<^verbatim>\<open>fieldName\<close>
  argument when there is one and the declared name of the field otherwise.
\<close>

theorem C6_column_name:
  assumes "composeField ext h cfg st f = Inr fld"
    and "DirectiveList_ForName (FieldDefinition.Directives f) ''isDatabaseField'' = Some directive"
  shows "Field.Gorm fld =
           (case ArgumentList_ForName (Arguments directive) ''fieldName'' of
              None \<Rightarrow> ''gorm:\"column:'' @ FieldDefinition.Name f @ ''\"''
            | Some arg \<Rightarrow> ''gorm:\"column:'' @ Raw (Argument.Value arg) @ ''\"'')"
  using composeField_Inr(2) [OF assms(1)] assms(2)
  by (simp add: gormType_def gormColumn_def split: option.splits)

theorem C6_column_name_witness:
  "composeField ex_ext ex_heap ex_cfg ex_User ex_name =
     Inr \<lparr>Field.Description = [], Name = ''name'', Type = NewPointer (Basic ''string''),
          Tag = jsonTag ''name'', Gorm = gormColumn ''name''\<rparr> \<and>
   DirectiveList_ForName (FieldDefinition.Directives ex_name) ''isDatabaseField'' =
     Some (isDatabaseField []) \<and>
   ArgumentList_ForName (Arguments (isDatabaseField [])) ''fieldName'' = None \<and>
   gormColumn ''name'' = ''gorm:\"column:name\"'' \<and>
   composeField ex_ext ex_heap ex_cfg ex_User ex_nick =
     Inr \<lparr>Field.Description = [], Name = ''Nickname'', Type = NewPointer (Basic ''string''),
          Tag = jsonTag ''nick'', Gorm = gormColumn ''nick_name''\<rparr> \<and>
   DirectiveList_ForName (FieldDefinition.Directives ex_nick) ''isDatabaseField'' =
     Some (isDatabaseField [\<lparr>Argument.Name = ''fieldName'', Value = \<lparr>Raw = ''nick_name''\<rparr>\<rparr>]) \<and>
   gormColumn ''nick_name'' = ''gorm:\"column:nick_name\"''"
proof -
  have 1: "DirectiveList_ForName (FieldDefinition.Directives ex_name) ''isDatabaseField'' =
             Some (isDatabaseField [])"
    and 2: "DirectiveList_ForName (FieldDefinition.Directives ex_nick) ''isDatabaseField'' =
      Some (isDatabaseField [\<lparr>Argument.Name = ''fieldName'', Value = \<lparr>Raw = ''nick_name''\<rparr>\<rparr>])"
    and 3: "ArgumentList_ForName (Arguments (isDatabaseField [])) ''fieldName'' = None"
    by (simp_all add: ex_defs DirectiveList_ForName_def ArgumentList_ForName_def)
  from C6_column_name [OF ex_compose_name 1] C6_column_name [OF ex_compose_nick 2]
    ex_compose_name ex_compose_nick 1 2 3
  show ?thesis
    by (simp add: ArgumentList_ForName_def isDatabaseField_def ex_defs)
qed

text \<open>
  C7. The serialization tag of a composed field is \<^verbatim>\<open>json:"NAME"\<close> with the declared name of
  the schema field, also when the configuration holds a non-empty name for the field of
  this type, which then is the name of the generated field.
\<close>

theorem C7_tag_from_declared_name:
  assumes "composeField ext h cfg st f = Inr fld"
  shows "Field.Tag fld = ''json:\"'' @ FieldDefinition.Name f @ ''\"'' \<and>
         (let nameOveride =
            FieldName (Fields_get (TypeMap_get (Config.Models cfg) (Definition.Name st))
                                  (FieldDefinition.Name f))
          in nameOveride \<noteq> [] \<longrightarrow> Field.Name fld = nameOveride)"
  using composeField_Inr [OF assms]
  by (simp add: jsonTag_def fieldName_def Let_def)

theorem C7_tag_from_declared_name_witness:
  "composeField ex_ext ex_heap ex_cfg ex_User ex_nick =
     Inr \<lparr>Field.Description = [], Name = ''Nickname'', Type = NewPointer (Basic ''string''),
          Tag = ''json:\"nick\"'', Gorm = gormColumn ''nick_name''\<rparr> \<and>
   FieldDefinition.Name ex_nick = ''nick'' \<and>
   FieldName (Fields_get (TypeMap_get (Config.Models ex_cfg) (Definition.Name ex_User))
                         (FieldDefinition.Name ex_nick)) = ''Nickname''"
  using C7_tag_from_declared_name [OF ex_compose_nick] ex_compose_nick
  by (simp add: ex_defs TypeMap_get_def Fields_get_def jsonTag_def)

text \<open>
  C8. A completed run whose build has four empty collections makes no call of the renderer
  and returns nil; any other completed run calls the renderer once, with the build as data,
  and returns what the renderer returns. A schema with built-in types only gives a run that
  completes, calls nothing and returns nil.
\<close>

theorem C8_render_dispatch:
  "(\<forall>r. MutateConfig ext h cfg = Inr r \<longrightarrow>
        (if nothingToGenerate (build r)
         then filter isRenderCall (trace r) = [] \<and> returned r = None
         else filter isRenderCall (trace r) = [RenderCall (renderOptions cfg (build r))] \<and>
              returned r = Render ext (renderOptions cfg (build r)))) \<and>
   ((\<forall>(k, p)\<in>set (Types (Config.Schema cfg)). BuiltIn (h p)) \<longrightarrow>
      (\<exists>r. MutateConfig ext h cfg = Inr r \<and> nothingToGenerate (build r) \<and>
           trace r = [] \<and> returned r = None))"
proof (intro conjI allI impI)
  fix r assume "MutateConfig ext h cfg = Inr r"
  then obtain b0 where
    t: "trace r = map (\<lambda>(n, t). Add n t) (registrations ext cfg (build r)) @
               (if nothingToGenerate (build r) then []
                else [RenderCall (renderOptions cfg (build r))])"
    and e: "returned r = (if nothingToGenerate (build r) then None
                   else Render ext (renderOptions cfg (build r)))"
    by (rule MutateConfig_Inr)
  have "filter isRenderCall (map (\<lambda>(n, t). Add n t) xs) = []" for xs
    by (induction xs) auto
  with t e show "if nothingToGenerate (build r)
         then filter isRenderCall (trace r) = [] \<and> returned r = None
         else filter isRenderCall (trace r) = [RenderCall (renderOptions cfg (build r))] \<and>
              returned r = Render ext (renderOptions cfg (build r))"
    by simp
next
  assume "\<forall>(k, p)\<in>set (Types (Config.Schema cfg)). BuiltIn (h p)"
  then have "types_loop ext h cfg (Types (Config.Schema cfg)) (initialBuild cfg) =
               Inr (initialBuild cfg)"
    by (rule types_loop_BuiltIn)
  then show "\<exists>r. MutateConfig ext h cfg = Inr r \<and> nothingToGenerate (build r) \<and>
           trace r = [] \<and> returned r = None"
    unfolding MutateConfig_eq
    by (simp add: sortBuild_def initialBuild_def nothingToGenerate_def registrations_def)
qed

theorem C8_render_dispatch_witness:
  "MutateConfig ex_ext ex_heap ex_cfg = Inr ex_run \<and>
   \<not> nothingToGenerate (build ex_run) \<and>
   filter isRenderCall (trace ex_run) = [RenderCall (renderOptions ex_cfg ex_build)] \<and>
   returned ex_run = Render ex_ext (renderOptions ex_cfg ex_build) \<and>
   Types (Config.Schema builtin_cfg) = [(''String'', 7), (''ID'', 6)] \<and>
   BuiltIn (ex_heap 7) \<and> BuiltIn (ex_heap 6) \<and>
   (\<exists>r. MutateConfig ex_ext ex_heap builtin_cfg = Inr r \<and> nothingToGenerate (build r) \<and>
        trace r = [] \<and> returned r = None)"
proof -
  have 1: "\<not> nothingToGenerate (build ex_run)" "build ex_run = ex_build"
    by (simp_all add: ex_run_def ex_build_def nothingToGenerate_def)
  have 2: "Types (Config.Schema builtin_cfg) = [(''String'', 7), (''ID'', 6)]"
    "BuiltIn (ex_heap 7)" "BuiltIn (ex_heap 6)"
    by (simp_all add: builtin_cfg_def reorder_def ex_heap_def ex_scalar_def)
  then have 3: "\<forall>(k, p)\<in>set (Types (Config.Schema builtin_cfg)). BuiltIn (ex_heap p)"
    by simp
  from C8_render_dispatch [of ex_ext ex_heap ex_cfg]
    C8_render_dispatch [of ex_ext ex_heap builtin_cfg] ex_MutateConfig 1 2 3
  show ?thesis by simp
qed

text \<open>
  C9. The calls a completed run makes are, in this order: one \<^verbatim>\<open>Add\<close> for each enum, then
  one for each model, then one for each interface (each with the generated path of the
  name), then one for each scalar (with \<^verbatim>\<open>graphql.String\<close>), each collection in the order
  of the sorted build; after them nothing but the call of the renderer. The table the run
  leaves is the given one after these calls. For a schema as the parser builds it, no name
  is registered twice, and the entry of each registered name has gained this one model.
\<close>

theorem C9_registration_order:
  assumes "MutateConfig ext h cfg = Inr r"
  shows "(\<exists>rest. trace r = map (\<lambda>(n, t). Add n t) (registrations ext cfg (build r)) @ rest \<and>
                 list_all isRenderCall rest) \<and>
         models r = foldl (\<lambda>m (n, t). TypeMap_Add m n t) (Config.Models cfg)
                      (registrations ext cfg (build r)) \<and>
         (schema_named h (Config.Schema cfg) \<longrightarrow>
            distinct (map fst (registrations ext cfg (build r))) \<and>
            (\<forall>(n, t)\<in>set (registrations ext cfg (build r)).
               TypeMapEntry.Model (TypeMap_get (models r) n) =
                 TypeMapEntry.Model (TypeMap_get (Config.Models cfg) n) @ [t]))"
proof -
  from assms obtain b0 where
    t: "trace r = map (\<lambda>(n, t). Add n t) (registrations ext cfg (build r)) @
               (if nothingToGenerate (build r) then []
                else [RenderCall (renderOptions cfg (build r))])"
    and m: "models r = foldl (\<lambda>m (n, t). TypeMap_Add m n t) (Config.Models cfg)
                  (registrations ext cfg (build r))"
    by (rule MutateConfig_Inr)
  have 1: "\<exists>rest. trace r = map (\<lambda>(n, t). Add n t) (registrations ext cfg (build r)) @ rest \<and>
                 list_all isRenderCall rest"
    by (subst t) (rule exI [of _ "if nothingToGenerate (build r) then []
                else [RenderCall (renderOptions cfg (build r))]"], simp)
  have 2: "distinct (map fst (registrations ext cfg (build r))) \<and>
            (\<forall>(n, t)\<in>set (registrations ext cfg (build r)).
               TypeMapEntry.Model (TypeMap_get (models r) n) =
                 TypeMapEntry.Model (TypeMap_get (Config.Models cfg) n) @ [t])"
    if named: "schema_named h (Config.Schema cfg)"
  proof -
    have "map fst (registrations ext cfg (build r)) =
            map Enum.Name (Enums (build r)) @ map Object.Name (ModelBuild.Models (build r)) @
            map Interface.Name (Interfaces (build r)) @ Scalars (build r)"
      by (simp add: registrations_def comp_def)
    with collections_distinct [OF assms named]
    have d: "distinct (map fst (registrations ext cfg (build r)))" by simp
    show ?thesis
      using d foldl_Add_once [OF d] unfolding m by auto
  qed
  from 1 2 m show ?thesis by blast
qed

theorem C9_registration_order_witness:
  "MutateConfig ex_ext ex_heap ex_cfg = Inr ex_run \<and>
   schema_named ex_heap (Config.Schema ex_cfg) \<and>
   registrations ex_ext ex_cfg (build ex_run) =
     [(''Status'', ''myapp/model.Status''), (''Account'', ''myapp/model.Account''),
      (''User'', ''myapp/model.User''), (''Node'', ''myapp/model.Node''),
      (''Time'', ''github.com/99designs/gqlgen/graphql.String'')] \<and>
   (\<exists>rest. trace ex_run =
             map (\<lambda>(n, t). Add n t) (registrations ex_ext ex_cfg (build ex_run)) @ rest \<and>
           list_all isRenderCall rest) \<and>
   distinct (map fst (registrations ex_ext ex_cfg (build ex_run))) \<and>
   TypeMapEntry.Model (TypeMap_get (models ex_run) ''User'') = [''myapp/model.User''] \<and>
   TypeMapEntry.Model (TypeMap_get (models ex_run) ''Time'') =
     [''github.com/99designs/gqlgen/graphql.String'']"
proof -
  have 1: "registrations ex_ext ex_cfg (build ex_run) =
     [(''Status'', ''myapp/model.Status''), (''Account'', ''myapp/model.Account''),
      (''User'', ''myapp/model.User''), (''Node'', ''myapp/model.Node''),
      (''Time'', ''github.com/99designs/gqlgen/graphql.String'')]"
    by (simp add: ex_run_def ex_build_def ex_User_model_def ex_Account_model_def
          registrations_def generatedPath_def graphqlString_def ex_cfg_def ex_ext_def)
  have 2: "TypeMapEntry.Model (TypeMap_get (Config.Models ex_cfg) ''User'') = []"
    "TypeMapEntry.Model (TypeMap_get (Config.Models ex_cfg) ''Time'') = []"
    by (simp_all add: ex_cfg_def TypeMap_get_def)
  from C9_registration_order [OF ex_MutateConfig] ex_schema_named
  have 3: "\<exists>rest. trace ex_run =
             map (\<lambda>(n, t). Add n t) (registrations ex_ext ex_cfg (build ex_run)) @ rest \<and>
             list_all isRenderCall rest"
    and 4: "distinct (map fst (registrations ex_ext ex_cfg (build ex_run)))"
    and 5: "\<forall>(n, t)\<in>set (registrations ex_ext ex_cfg (build ex_run)).
               TypeMapEntry.Model (TypeMap_get (models ex_run) n) =
                 TypeMapEntry.Model (TypeMap_get (Config.Models ex_cfg) n) @ [t]"
    by blast+
  from 5 2 have
    "TypeMapEntry.Model (TypeMap_get (models ex_run) ''User'') = [''myapp/model.User'']"
    "TypeMapEntry.Model (TypeMap_get (models ex_run) ''Time'') =
       [''github.com/99designs/gqlgen/graphql.String'']"
    unfolding 1 by simp_all
  with 1 3 4 ex_MutateConfig ex_schema_named show ?thesis by simp
qed

text \<open>
  C10. Every object in Models of a completed run matches an entry of \<^verbatim>\<open>Types\<close> of the same
  name such that the fields of the object are the composed fields of the type, position by
  position: the i-th generated field comes from the i-th declared field, and the tags list
  the declared names in the declared order. Sorting the collections does not touch them.
\<close>

theorem C10_fields_in_declaration_order:
  assumes "MutateConfig ext h cfg = Inr r" and "m \<in> set (ModelBuild.Models (build r))"
  shows "\<exists>(k, p)\<in>set (Types (Config.Schema cfg)).
           Object.Name m = Definition.Name (h p) \<and>
           list_all2 (\<lambda>f fld. composeField ext h cfg (h p) f = Inr fld)
             (Definition.Fields (h p)) (Object.Fields m) \<and>
           map Field.Tag (Object.Fields m) =
             map (\<lambda>f. jsonTag (FieldDefinition.Name f)) (Definition.Fields (h p))"
proof -
  from Models_provenance [OF assms] obtain k p where
    kp: "(k, p) \<in> set (Types (Config.Schema cfg))" and mf: "modelFrom ext h cfg p m"
    by auto
  from mf have l: "list_all2 (\<lambda>f fld. composeField ext h cfg (h p) f = Inr fld)
             (Definition.Fields (h p)) (Object.Fields m)"
    and n: "Object.Name m = Definition.Name (h p)"
    by (simp_all add: modelFrom_def)
  from l have "list_all2 (\<lambda>f fld. jsonTag (FieldDefinition.Name f) = Field.Tag fld)
             (Definition.Fields (h p)) (Object.Fields m)"
    by (rule list_all2_mono) (simp add: composeField_Inr)
  then have "map (\<lambda>f. jsonTag (FieldDefinition.Name f)) (Definition.Fields (h p)) =
             map Field.Tag (Object.Fields m)"
    by (rule list_all2_map_eq)
  with kp l n show ?thesis by force
qed

theorem C10_fields_in_declaration_order_witness:
  "MutateConfig ex_ext ex_heap ex_cfg = Inr ex_run \<and>
   ex_User_model \<in> set (ModelBuild.Models (build ex_run)) \<and>
   map FieldDefinition.Name (Definition.Fields ex_User) =
     [''id'', ''name'', ''nick'', ''account''] \<and>
   map Field.Tag (Object.Fields ex_User_model) =
     [jsonTag ''id'', jsonTag ''name'', jsonTag ''nick'', jsonTag ''account''] \<and>
   (\<exists>(k, p)\<in>set (Types (Config.Schema ex_cfg)).
      Object.Name ex_User_model = Definition.Name (ex_heap p) \<and>
      list_all2 (\<lambda>f fld. composeField ex_ext ex_heap ex_cfg (ex_heap p) f = Inr fld)
        (Definition.Fields (ex_heap p)) (Object.Fields ex_User_model) \<and>
      map Field.Tag (Object.Fields ex_User_model) =
        map (\<lambda>f. jsonTag (FieldDefinition.Name f)) (Definition.Fields (ex_heap p)))"
proof -
  have 1: "ex_User_model \<in> set (ModelBuild.Models (build ex_run))"
    by (simp add: ex_run_def ex_build_def)
  have 2: "map FieldDefinition.Name (Definition.Fields ex_User) =
             [''id'', ''name'', ''nick'', ''account'']"
    "map Field.Tag (Object.Fields ex_User_model) =
     [jsonTag ''id'', jsonTag ''name'', jsonTag ''nick'', jsonTag ''account'']"
    by (simp_all add: ex_defs ex_User_model_def)
  from C10_fields_in_declaration_order [OF ex_MutateConfig 1] ex_MutateConfig 1 2
  show ?thesis by simp
qed

end
